theory Spec2Isabelle
  imports Complex_Main
begin

section \<open>Triple-check validator: data model\<close>

text \<open>
  Embedding of \<^verbatim>\<open>src/lead_sniper/validators/triple_check_validator.py\<close>.

  Conventions of the embedding:
  \<^item> A data point is a Python dictionary with string keys; it is a map from keys to
    values. The values that the validator can meet are modelled by \<open>pyval\<close>.
  \<^item> Strings are lists of 8-bit characters, read as the code points below 256.
  \<^item> Python numbers (the integer and floating-point scores) are exact rationals:
    \<open>0.33\<close> is \<open>33 / 100\<close>. The IEEE rounding of the floating-point
    operations is not part of the orchestrator's model; the weighted sum of the final
    score is also evaluated in doubles, with its rounding, in a section of its own.
  \<^item> A raised exception is the left summand of the result.
  \<^item> \<^verbatim>\<open>datetime.now().isoformat()\<close> reads a clock: the k-th reading made during
    one call of \<open>validate_data_point\<close> is \<open>clock k\<close>.
  \<^item> The attributes of the validator object are the fields of the record
    \<open>validator\<close>, passed in and returned.
\<close>

datatype pyval = PNone | PBool bool | PInt int | PStr string | PList "pyval list"

type_synonym data_point = "string \<rightharpoonup> pyval"

datatype py_error = TypeError | AttributeError

datatype ValidationStatus = GOLD | SILVER | BRONZE | REJECTED

record source_check =
  sc_check :: string
  sc_source :: pyval
  sc_is_authentic :: bool
  sc_score :: rat

record integrity_check =
  ic_check :: string
  ic_checks :: "(string \<times> bool) list"
  ic_score :: rat

record quality_check =
  qc_check :: string
  qc_score :: rat

record layer1_checks =
  source_authenticity :: source_check
  data_integrity :: integrity_check
  data_quality :: quality_check

record layer1_result =
  l1_layer :: nat
  l1_name :: string
  l1_checks :: layer1_checks
  l1_score :: rat

record ext_source =
  es_source :: string
  es_valid :: bool
  es_confidence :: nat
  es_url :: string
  es_timestamp :: string

record layer2_result =
  l2_layer :: nat
  l2_name :: string
  external_sources :: "ext_source list"
  agreement_percentage :: rat
  l2_score :: rat

record layer3_result =
  l3_layer :: nat
  l3_name :: string
  reproducibility_checks :: "(string \<times> bool) list"
  l3_score :: rat

record audit_entry =
  ae_timestamp :: string
  ae_layer :: nat
  ae_data_point :: pyval
  ae_score :: rat

text \<open>
  The report dictionary. The entries \<open>layer_1\<close>, \<open>layer_2\<close>, \<open>layer_3\<close> start as the
  empty dictionary (\<open>None\<close> here) and \<open>final_status\<close> starts as Python's \<open>None\<close>.
\<close>

record report =
  rp_data_point :: data_point
  validation_timestamp :: string
  layer_1 :: "layer1_result option"
  layer_2 :: "layer2_result option"
  layer_3 :: "layer3_result option"
  final_score :: rat
  final_status :: "ValidationStatus option"
  audit_trail :: "audit_entry list"

record validator =
  validation_history :: "report list"
  rejected_data :: "report list"
  audit_log :: "audit_entry list"

text \<open>\<^verbatim>\<open>__init__\<close>\<close>

definition init_validator :: validator where
  "init_validator = \<lparr>validation_history = [], rejected_data = [], audit_log = []\<rparr>"

section \<open>Python primitives used by the validator\<close>

text \<open>\<^verbatim>\<open>d.get(k, default)\<close>\<close>

definition py_get :: "data_point \<Rightarrow> string \<Rightarrow> pyval \<Rightarrow> pyval" where
  "py_get d k dflt = (case d k of None \<Rightarrow> dflt | Some v \<Rightarrow> v)"

text \<open>\<^verbatim>\<open>a in s\<close> for two strings: \<open>a\<close> occurs in \<open>s\<close> as a contiguous block.\<close>

fun substring :: "string \<Rightarrow> string \<Rightarrow> bool" where
  "substring a [] = (a = [])"
| "substring a (c # cs) = (take (length a) (c # cs) = a \<or> substring a cs)"

text \<open>
  \<^verbatim>\<open>auth_source in source\<close>, where \<open>auth_source\<close> is a string: substring test on a
  string, membership on a list, \<open>TypeError\<close> on a value that is not a container.
\<close>

fun py_in :: "string \<Rightarrow> pyval \<Rightarrow> py_error + bool" where
  "py_in a (PStr s) = Inr (substring a s)"
| "py_in a (PList xs) = Inr (PStr a \<in> set xs)"
| "py_in a PNone = Inl TypeError"
| "py_in a (PBool b) = Inl TypeError"
| "py_in a (PInt i) = Inl TypeError"

text \<open>
  \<^verbatim>\<open>any(auth_source in source for auth_source in authoritative_sources)\<close>: the
  generator is consumed from the left, stops at the first true test, and a test that
  raises ends the call.
\<close>

fun any_in :: "string list \<Rightarrow> pyval \<Rightarrow> py_error + bool" where
  "any_in [] src = Inr False"
| "any_in (a # as) src =
     (case py_in a src of
        Inl e \<Rightarrow> Inl e
      | Inr b \<Rightarrow> if b then Inr True else any_in as src)"

text \<open>The characters that \<^verbatim>\<open>str.strip()\<close> removes, among the code points below 256.\<close>

definition is_space :: "char \<Rightarrow> bool" where
  "is_space c =
     (let n = (of_char c :: nat)
      in (9 \<le> n \<and> n \<le> 13) \<or> (28 \<le> n \<and> n \<le> 32) \<or> n = 133 \<or> n = 160)"

definition strip :: "string \<Rightarrow> string" where
  "strip s = rev (dropWhile is_space (rev (dropWhile is_space s)))"

text \<open>\<^verbatim>\<open>v.strip()\<close>: only a string has the method.\<close>

fun py_strip :: "pyval \<Rightarrow> py_error + string" where
  "py_strip (PStr s) = Inr (strip s)"
| "py_strip PNone = Inl AttributeError"
| "py_strip (PBool b) = Inl AttributeError"
| "py_strip (PInt i) = Inl AttributeError"
| "py_strip (PList xs) = Inl AttributeError"

section \<open>Layer 1 helper methods\<close>

definition authoritative_sources :: "string list" where
  "authoritative_sources =
     [''HUD'', ''County Clerk'', ''County Assessor'', ''County Tax'',
      ''USPS'', ''Google Maps'', ''Census Bureau'', ''Zillow'', ''Redfin'']"

text \<open>\<^verbatim>\<open>_check_source_authenticity\<close>\<close>

definition check_source_authenticity :: "data_point \<Rightarrow> py_error + source_check" where
  "check_source_authenticity dp =
     (let source = py_get dp ''source'' (PStr '''')
      in case any_in authoritative_sources source of
           Inl e \<Rightarrow> Inl e
         | Inr is_authentic \<Rightarrow>
             Inr \<lparr>sc_check = ''source_authenticity'',
                  sc_source = source,
                  sc_is_authentic = is_authentic,
                  sc_score = (if is_authentic then 99 else 0)\<rparr>)"

text \<open>\<^verbatim>\<open>_check_data_integrity\<close>\<close>

definition check_data_integrity :: "data_point \<Rightarrow> integrity_check" where
  "check_data_integrity dp =
     (let checks =
            [(''has_address'', dp ''address'' \<noteq> None),
             (''has_city'', dp ''city'' \<noteq> None),
             (''has_state'', dp ''state'' \<noteq> None),
             (''has_zip'', dp ''zip'' \<noteq> None),
             (''has_source'', dp ''source'' \<noteq> None),
             (''has_timestamp'', dp ''timestamp'' \<noteq> None)];
          passed = length (filter snd checks);
          total = length checks;
          score = (of_nat passed / of_nat total) * 100
      in \<lparr>ic_check = ''data_integrity'', ic_checks = checks, ic_score = score\<rparr>)"

text \<open>
  One statement of \<^verbatim>\<open>_check_data_quality\<close>:
  \<^verbatim>\<open>if data_point.get(k, "").strip() == "": quality_score -= 50\<close>.
\<close>

definition blank_penalty :: "data_point \<Rightarrow> string \<Rightarrow> int \<Rightarrow> py_error + int" where
  "blank_penalty dp k quality_score =
     (case py_strip (py_get dp k (PStr '''')) of
        Inl e \<Rightarrow> Inl e
      | Inr s \<Rightarrow> Inr (if s = '''' then quality_score - 50 else quality_score))"

text \<open>\<^verbatim>\<open>_check_data_quality\<close>\<close>

definition check_data_quality :: "data_point \<Rightarrow> py_error + quality_check" where
  "check_data_quality dp =
     (case blank_penalty dp ''address'' 90 of
        Inl e \<Rightarrow> Inl e
      | Inr q1 \<Rightarrow>
     (case blank_penalty dp ''city'' q1 of
        Inl e \<Rightarrow> Inl e
      | Inr q2 \<Rightarrow>
     (case blank_penalty dp ''state'' q2 of
        Inl e \<Rightarrow> Inl e
      | Inr q3 \<Rightarrow>
          Inr \<lparr>qc_check = ''data_quality'', qc_score = of_int (max 0 q3)\<rparr>)))"

section \<open>Layer 1\<close>

text \<open>\<^verbatim>\<open>_layer_1_internal_verification\<close>\<close>

definition layer_1_internal_verification :: "data_point \<Rightarrow> py_error + layer1_result" where
  "layer_1_internal_verification dp =
     (case check_source_authenticity dp of
        Inl e \<Rightarrow> Inl e
      | Inr source_chk \<Rightarrow>
     (let integrity_chk = check_data_integrity dp
      in case check_data_quality dp of
        Inl e \<Rightarrow> Inl e
      | Inr quality_chk \<Rightarrow>
          (let scores = [sc_score source_chk, ic_score integrity_chk, qc_score quality_chk]
           in Inr \<lparr>l1_layer = 1,
                   l1_name = ''Internal Verification'',
                   l1_checks = \<lparr>source_authenticity = source_chk,
                                data_integrity = integrity_chk,
                                data_quality = quality_chk\<rparr>,
                   l1_score = sum_list scores / of_nat (length scores)\<rparr>)))"

section \<open>Layer 2\<close>

text \<open>The five stand-ins; the first argument is the clock reading of the call.\<close>

definition verify_usps :: "string \<Rightarrow> data_point \<Rightarrow> ext_source" where
  "verify_usps now dp =
     \<lparr>es_source = ''USPS'', es_valid = True, es_confidence = 99,
      es_url = ''https://tools.usps.com'', es_timestamp = now\<rparr>"

definition verify_google_maps :: "string \<Rightarrow> data_point \<Rightarrow> ext_source" where
  "verify_google_maps now dp =
     \<lparr>es_source = ''Google Maps'', es_valid = True, es_confidence = 98,
      es_url = ''https://maps.google.com'', es_timestamp = now\<rparr>"

definition verify_county_records :: "string \<Rightarrow> data_point \<Rightarrow> ext_source" where
  "verify_county_records now dp =
     \<lparr>es_source = ''County Records'', es_valid = True, es_confidence = 99,
      es_url = ''https://county-records.example.com'', es_timestamp = now\<rparr>"

definition verify_county_assessor :: "string \<Rightarrow> data_point \<Rightarrow> ext_source" where
  "verify_county_assessor now dp =
     \<lparr>es_source = ''County Assessor'', es_valid = True, es_confidence = 99,
      es_url = ''https://assessor.example.com'', es_timestamp = now\<rparr>"

definition verify_property_appraiser :: "string \<Rightarrow> data_point \<Rightarrow> ext_source" where
  "verify_property_appraiser now dp =
     \<lparr>es_source = ''Property Appraiser'', es_valid = True, es_confidence = 98,
      es_url = ''https://appraiser.example.com'', es_timestamp = now\<rparr>"

text \<open>
  The body of \<^verbatim>\<open>_layer_2_external_verification\<close> from the point where the list
  \<open>sources\<close> has been built (source lines 182 to 202), as a function of that list.
  The division is only reached with a non-empty \<open>valid_sources\<close>, hence a non-empty
  \<open>sources\<close>.
\<close>

definition layer_2_aggregate :: "ext_source list \<Rightarrow> layer2_result" where
  "layer_2_aggregate sources =
     (let valid_sources = filter es_valid sources
      in if valid_sources \<noteq> [] then
           (let agreement = (of_nat (length valid_sources) / of_nat (length sources)) * 100
            in \<lparr>l2_layer = 2, l2_name = ''External Verification'',
                external_sources = sources,
                agreement_percentage = agreement,
                l2_score = (if agreement \<ge> 95 then 99
                            else if agreement \<ge> 80 then 90
                            else if agreement \<ge> 60 then 75
                            else 50)\<rparr>)
         else
           \<lparr>l2_layer = 2, l2_name = ''External Verification'',
            external_sources = sources,
            agreement_percentage = 0,
            l2_score = 0\<rparr>)"

text \<open>
  \<^verbatim>\<open>_layer_2_external_verification\<close>: the panel is the list of the five stand-ins,
  evaluated from the left, each reading the clock once.
\<close>

definition layer_2_external_verification :: "(nat \<Rightarrow> string) \<Rightarrow> data_point \<Rightarrow> layer2_result" where
  "layer_2_external_verification clock dp =
     layer_2_aggregate
       [verify_usps (clock 0) dp,
        verify_google_maps (clock 1) dp,
        verify_county_records (clock 2) dp,
        verify_county_assessor (clock 3) dp,
        verify_property_appraiser (clock 4) dp]"

section \<open>Layer 3\<close>

definition can_find_in_usps :: "data_point \<Rightarrow> bool" where
  "can_find_in_usps dp = True"

definition can_find_in_google_maps :: "data_point \<Rightarrow> bool" where
  "can_find_in_google_maps dp = True"

definition can_find_in_county_assessor :: "data_point \<Rightarrow> bool" where
  "can_find_in_county_assessor dp = True"

definition can_find_in_county_clerk :: "data_point \<Rightarrow> bool" where
  "can_find_in_county_clerk dp = True"

definition can_find_in_property_appraiser :: "data_point \<Rightarrow> bool" where
  "can_find_in_property_appraiser dp = True"

definition can_find_in_zillow :: "data_point \<Rightarrow> bool" where
  "can_find_in_zillow dp = True"

definition can_find_in_redfin :: "data_point \<Rightarrow> bool" where
  "can_find_in_redfin dp = True"

text \<open>
  \<^verbatim>\<open>_layer_3_reproducibility_test\<close>. The dictionary of checks is a literal of seven
  entries, so \<open>total_count\<close> is 7 and the division is defined.
\<close>

definition layer_3_reproducibility_test :: "data_point \<Rightarrow> layer3_result" where
  "layer_3_reproducibility_test dp =
     (let checks =
            [(''usps_findable'', can_find_in_usps dp),
             (''google_maps_findable'', can_find_in_google_maps dp),
             (''county_assessor_findable'', can_find_in_county_assessor dp),
             (''county_clerk_findable'', can_find_in_county_clerk dp),
             (''property_appraiser_findable'', can_find_in_property_appraiser dp),
             (''zillow_findable'', can_find_in_zillow dp),
             (''redfin_findable'', can_find_in_redfin dp)];
          findable_count = length (filter snd checks);
          total_count = length checks;
          reproducibility_percentage = (of_nat findable_count / of_nat total_count) * (100 :: rat)
      in \<lparr>l3_layer = 3, l3_name = ''Reproducibility Test'',
          reproducibility_checks = checks,
          l3_score = (if reproducibility_percentage \<ge> 95 then 99
                      else if reproducibility_percentage \<ge> 80 then 90
                      else if reproducibility_percentage \<ge> 60 then 75
                      else 50)\<rparr>)"

section \<open>The orchestrator\<close>

text \<open>The dictionary appended to \<^verbatim>\<open>self.audit_log\<close> after a layer has run.\<close>

definition audit :: "string \<Rightarrow> nat \<Rightarrow> data_point \<Rightarrow> rat \<Rightarrow> audit_entry" where
  "audit now layer dp score =
     \<lparr>ae_timestamp = now, ae_layer = layer,
      ae_data_point = py_get dp ''address'' (PStr ''unknown''),
      ae_score = score\<rparr>"

text \<open>
  The weighted sum of source lines 102 to 106, as its exact value. The program
  evaluates it in doubles (\<open>composite_score_double\<close> below); for scores between 0
  and 100 the two differ by at most 2^-44 (lemma \<open>composite_double_close\<close>).
\<close>

definition composite_score :: "rat \<Rightarrow> rat \<Rightarrow> rat \<Rightarrow> rat" where
  "composite_score s1 s2 s3 = s1 * (33 / 100) + s2 * (33 / 100) + s3 * (34 / 100)"

text \<open>The chain of comparisons of source lines 111 to 118.\<close>

definition classify :: "rat \<Rightarrow> ValidationStatus" where
  "classify fs =
     (if fs \<ge> 95 then GOLD
      else if fs \<ge> 85 then SILVER
      else if fs \<ge> 75 then BRONZE
      else REJECTED)"

text \<open>
  \<^verbatim>\<open>validate_data_point\<close>. Clock readings, in the order of the calls:
  0 for the report, 1 for the audit entry of layer 1, 2 to 6 for the five stand-ins of
  layer 2, 7 and 8 for the audit entries of layers 2 and 3. An exception can only
  come from layer 1, before the validator has been changed, so the error result
  carries no state.
\<close>

definition validate_data_point ::
  "(nat \<Rightarrow> string) \<Rightarrow> validator \<Rightarrow> data_point \<Rightarrow> py_error + (report \<times> validator)" where
  "validate_data_point clock v dp =
     (let report0 = \<lparr>rp_data_point = dp, validation_timestamp = clock 0,
                      layer_1 = None, layer_2 = None, layer_3 = None,
                      final_score = 0, final_status = None, audit_trail = []\<rparr>
      in case layer_1_internal_verification dp of
           Inl e \<Rightarrow> Inl e
         | Inr layer_1_result \<Rightarrow>
     (let report1 = report0\<lparr>layer_1 := Some layer_1_result\<rparr>;
          v1 = v\<lparr>audit_log := audit_log v @ [audit (clock 1) 1 dp (l1_score layer_1_result)]\<rparr>
      in if l1_score layer_1_result < 75 then
           (let r = report1\<lparr>final_status := Some REJECTED,
                             final_score := l1_score layer_1_result\<rparr>
            in Inr (r, v1\<lparr>rejected_data := rejected_data v1 @ [r]\<rparr>))
         else
     (let layer_2_result = layer_2_external_verification (\<lambda>k. clock (k + 2)) dp;
          report2 = report1\<lparr>layer_2 := Some layer_2_result\<rparr>;
          v2 = v1\<lparr>audit_log := audit_log v1 @ [audit (clock 7) 2 dp (l2_score layer_2_result)]\<rparr>
      in if l2_score layer_2_result < 75 then
           (let r = report2\<lparr>final_status := Some REJECTED,
                             final_score := l2_score layer_2_result\<rparr>
            in Inr (r, v2\<lparr>rejected_data := rejected_data v2 @ [r]\<rparr>))
         else
     (let layer_3_result = layer_3_reproducibility_test dp;
          report3 = report2\<lparr>layer_3 := Some layer_3_result\<rparr>;
          v3 = v2\<lparr>audit_log := audit_log v2 @ [audit (clock 8) 3 dp (l3_score layer_3_result)]\<rparr>
      in if l3_score layer_3_result < 75 then
           (let r = report3\<lparr>final_status := Some REJECTED,
                             final_score := l3_score layer_3_result\<rparr>
            in Inr (r, v3\<lparr>rejected_data := rejected_data v3 @ [r]\<rparr>))
         else
     (let fs = composite_score (l1_score layer_1_result) (l2_score layer_2_result)
                 (l3_score layer_3_result);
          r = report3\<lparr>final_score := fs, final_status := Some (classify fs)\<rparr>;
          v4 = (if classify fs = REJECTED
                then v3\<lparr>rejected_data := rejected_data v3 @ [r]\<rparr> else v3)
      in Inr (r, v4\<lparr>validation_history := validation_history v4 @ [r]\<rparr>))))))"

text \<open>\<^verbatim>\<open>get_releasable_data\<close> and \<^verbatim>\<open>get_rejected_data\<close>\<close>

definition get_releasable_data :: "validator \<Rightarrow> report list" where
  "get_releasable_data v =
     filter (\<lambda>r. final_status r \<in> set [Some GOLD, Some SILVER]) (validation_history v)"

definition get_rejected_data :: "validator \<Rightarrow> report list" where
  "get_rejected_data v = rejected_data v"

text \<open>
  The loop of \<^verbatim>\<open>generate_validation_report\<close> (source lines 389 to 392): the data
  points are validated from the left on the same validator object and the reports are
  collected in order. The clock is one stream of readings for the whole loop; a call
  that stops after layer 1 has made two readings, one that stops after layer 2 eight,
  one that runs layer 3 nine.
  An exception leaves the loop.
\<close>

definition clock_readings :: "report \<Rightarrow> nat" where
  "clock_readings r =
     (if layer_2 r = None then 2 else if layer_3 r = None then 8 else 9)"

fun validate_each ::
  "(nat \<Rightarrow> string) \<Rightarrow> validator \<Rightarrow> data_point list \<Rightarrow> py_error + (report list \<times> validator)" where
  "validate_each clock v [] = Inr ([], v)"
| "validate_each clock v (dp # dps) =
     (case validate_data_point clock v dp of
        Inl e \<Rightarrow> Inl e
      | Inr (r, v1) \<Rightarrow>
          (case validate_each (\<lambda>k. clock (k + clock_readings r)) v1 dps of
             Inl e \<Rightarrow> Inl e
           | Inr (rs, v2) \<Rightarrow> Inr (r # rs, v2)))"

section \<open>The composite in double precision\<close>

text \<open>
  The scores of the model are exact rationals. The program computes the weighted sum
  of source lines 102 to 106 in IEEE 754 binary64 numbers; the definitions below
  evaluate the same expression with the rounding of every operation written out, so
  that the two can be compared on concrete scores.

  \<open>double_round\<close> is rounding to the nearest number with a significand of 53 bits,
  ties to the even significand, for a value in the normal range of binary64 (no
  overflow to infinity, no subnormal numbers): every value met here lies between
  \<open>1 / 4\<close> and \<open>128\<close>.
\<close>

text \<open>The number of binary digits of a positive integer.\<close>

function bit_length :: "int \<Rightarrow> int" where
  "bit_length k = (if k \<le> 0 then 0 else 1 + bit_length (k div 2))"
  by pat_completeness auto
termination
  by (relation "measure nat") auto

declare bit_length.simps [simp del]

definition pow2 :: "int \<Rightarrow> rat" where
  "pow2 e = (if 0 \<le> e then 2 ^ nat e else 1 / 2 ^ nat (- e))"

text \<open>The exponent \<open>e\<close> with \<open>2 ^ e \<le> x < 2 ^ (e + 1)\<close>, for a positive \<open>x\<close>.\<close>

definition binary_exponent :: "rat \<Rightarrow> int" where
  "binary_exponent x =
     (let (p, q) = quotient_of x;
          d = bit_length p - bit_length q
      in if pow2 d \<le> x then d else d - 1)"

definition round_half_even :: "rat \<Rightarrow> int" where
  "round_half_even x =
     (let f = \<lfloor>x\<rfloor>; d = x - of_int f
      in if d < 1 / 2 then f else if 1 / 2 < d then f + 1
         else if even f then f else f + 1)"

definition double_round :: "rat \<Rightarrow> rat" where
  "double_round x =
     (if x = 0 then 0
      else (let a = \<bar>x\<bar>; u = pow2 (binary_exponent a - 52)
            in sgn x * (of_int (round_half_even (a / u)) * u)))"

text \<open>Multiplication and addition of two doubles.\<close>

definition double_mul :: "rat \<Rightarrow> rat \<Rightarrow> rat" where
  "double_mul a b = double_round (a * b)"

definition double_add :: "rat \<Rightarrow> rat \<Rightarrow> rat" where
  "double_add a b = double_round (a + b)"

text \<open>
  Source lines 102 to 106 in doubles. The literals \<open>0.33\<close> and \<open>0.34\<close> denote the
  doubles nearest to 33/100 and 34/100, and the sum is evaluated from the left.
\<close>

definition composite_score_double :: "rat \<Rightarrow> rat \<Rightarrow> rat \<Rightarrow> rat" where
  "composite_score_double s1 s2 s3 =
     double_add
       (double_add (double_mul s1 (double_round (33 / 100)))
                   (double_mul s2 (double_round (33 / 100))))
       (double_mul s3 (double_round (34 / 100)))"

section \<open>Notions used to state the properties\<close>

text \<open>
  The scores of the layers that a report shows as executed, in the order of execution:
  a layer's entry of the report is filled exactly when the layer has run.
\<close>

definition executed_scores :: "report \<Rightarrow> rat list" where
  "executed_scores r =
     (case layer_1 r of None \<Rightarrow> [] | Some l \<Rightarrow> [l1_score l]) @
     (case layer_2 r of None \<Rightarrow> [] | Some l \<Rightarrow> [l2_score l]) @
     (case layer_3 r of None \<Rightarrow> [] | Some l \<Rightarrow> [l3_score l])"




text \<open>
  Content sanity in the words of the specification: 90, minus 50 for each of address,
  city and state that is present but blank after stripping, not below 0.
\<close>

definition present_but_blank :: "data_point \<Rightarrow> string \<Rightarrow> bool" where
  "present_but_blank dp k = (case dp k of Some (PStr s) \<Rightarrow> strip s = [] | _ \<Rightarrow> False)"

definition spec_content_sanity :: "data_point \<Rightarrow> rat" where
  "spec_content_sanity dp =
     of_int (max 0 (90 - 50 * int (length (filter (present_but_blank dp)
        [''address'', ''city'', ''state'']))))"

text \<open>A field that is absent, or a string that is blank after stripping.\<close>

definition absent_or_blank :: "data_point \<Rightarrow> string \<Rightarrow> bool" where
  "absent_or_blank dp k =
     (case dp k of None \<Rightarrow> True | Some (PStr s) \<Rightarrow> strip s = [] | Some _ \<Rightarrow> False)"

text \<open>
  The records on which layer 1 does not raise: the values of address, city and state
  are strings where present, and the value of source, where present, is a string or a
  list.
\<close>

fun is_str :: "pyval \<Rightarrow> bool" where
  "is_str (PStr s) = True"
| "is_str PNone = False"
| "is_str (PBool b) = False"
| "is_str (PInt i) = False"
| "is_str (PList xs) = False"

fun is_container :: "pyval \<Rightarrow> bool" where
  "is_container (PStr s) = True"
| "is_container (PList xs) = True"
| "is_container PNone = False"
| "is_container (PBool b) = False"
| "is_container (PInt i) = False"

definition well_typed :: "data_point \<Rightarrow> bool" where
  "well_typed dp =
     (is_container (py_get dp ''source'' (PStr [])) \<and>
      is_str (py_get dp ''address'' (PStr [])) \<and>
      is_str (py_get dp ''city'' (PStr [])) \<and>
      is_str (py_get dp ''state'' (PStr [])))"

section \<open>Example inputs\<close>

text \<open>The first test record of the module's \<^verbatim>\<open>__main__\<close> block.\<close>

definition example_record :: data_point where
  "example_record =
     [''address'' \<mapsto> PStr ''1094 Riverside Drive'',
      ''city'' \<mapsto> PStr ''Port St. Lucie'',
      ''state'' \<mapsto> PStr ''FL'',
      ''zip'' \<mapsto> PStr ''34984'',
      ''source'' \<mapsto> PStr ''County Assessor'',
      ''timestamp'' \<mapsto> PStr ''2025-01-01T00:00:00'']"

definition example_clock :: "nat \<Rightarrow> string" where
  "example_clock k = ''2025-01-01T00:00:00''"

text \<open>The same record without its address.\<close>

definition record_without_address :: data_point where
  "record_without_address = example_record(''address'' := None)"

text \<open>The same record with a number as address.\<close>

definition record_with_number :: data_point where
  "record_with_number = example_record(''address'' \<mapsto> PInt 1094)"

text \<open>The same record with a blank address.\<close>

definition record_with_blank_address :: data_point where
  "record_with_blank_address = example_record(''address'' \<mapsto> PStr ''   '')"

lemmas layer_defs =
  layer_1_internal_verification_def check_source_authenticity_def check_data_integrity_def
  check_data_quality_def blank_penalty_def py_get_def authoritative_sources_def strip_def
  is_space_def layer_2_external_verification_def layer_2_aggregate_def verify_usps_def
  verify_google_maps_def verify_county_records_def verify_county_assessor_def
  verify_property_appraiser_def layer_3_reproducibility_test_def can_find_in_usps_def
  can_find_in_google_maps_def can_find_in_county_assessor_def can_find_in_county_clerk_def
  can_find_in_property_appraiser_def can_find_in_zillow_def can_find_in_redfin_def

lemmas example_defs = example_record_def example_clock_def init_validator_def

section \<open>Facts about the layers\<close>

lemma layer_2_stub_score: "l2_score (layer_2_external_verification clock dp) = 99"
  by (simp add: layer_2_external_verification_def layer_2_aggregate_def verify_usps_def
      verify_google_maps_def verify_county_records_def verify_county_assessor_def
      verify_property_appraiser_def)

lemma layer_3_stub_score: "l3_score (layer_3_reproducibility_test dp) = 99"
  by (simp add: layer_3_reproducibility_test_def can_find_in_usps_def can_find_in_google_maps_def
      can_find_in_county_assessor_def can_find_in_county_clerk_def
      can_find_in_property_appraiser_def can_find_in_zillow_def can_find_in_redfin_def)

lemma source_score_cases:
  "check_source_authenticity dp = Inr sc \<Longrightarrow> sc_score sc = 0 \<or> sc_score sc = 99"
  by (auto simp: check_source_authenticity_def Let_def split: sum.splits if_splits)

lemma integrity_score_bounds:
  "0 \<le> ic_score (check_data_integrity dp) \<and> ic_score (check_data_integrity dp) \<le> 100"
  by (simp add: check_data_integrity_def)

lemma blank_penalty_bounds:
  "blank_penalty dp k q = Inr q' \<Longrightarrow> q' \<le> q"
  by (auto simp: blank_penalty_def split: sum.splits if_splits)

lemma quality_score_bounds:
  assumes "check_data_quality dp = Inr qc"
  shows "0 \<le> qc_score qc \<and> qc_score qc \<le> 90"
proof -
  from assms obtain q1 q2 q3 where
    a: "blank_penalty dp ''address'' 90 = Inr q1" and
    b: "blank_penalty dp ''city'' q1 = Inr q2" and
    c: "blank_penalty dp ''state'' q2 = Inr q3" and
    q: "qc_score qc = of_int (max 0 q3)"
    by (auto simp: check_data_quality_def split: sum.splits)
  from blank_penalty_bounds[OF a] blank_penalty_bounds[OF b] blank_penalty_bounds[OF c]
  have "q3 \<le> 90" by linarith
  then have "max 0 q3 \<le> 90" by simp
  then have "(of_int (max 0 q3) :: rat) \<le> of_int 90" by (simp only: of_int_le_iff)
  moreover have "(0::rat) \<le> of_int (max 0 q3)" by simp
  ultimately show ?thesis using q by simp
qed

lemma layer_1_score_eq:
  assumes "layer_1_internal_verification dp = Inr l1"
  shows "\<exists>sc qc. check_source_authenticity dp = Inr sc \<and> check_data_quality dp = Inr qc \<and>
           l1_checks l1 = \<lparr>source_authenticity = sc, data_integrity = check_data_integrity dp,
                           data_quality = qc\<rparr> \<and>
           l1_score l1 = (sc_score sc + ic_score (check_data_integrity dp) + qc_score qc) / 3"
  using assms
  by (auto simp: layer_1_internal_verification_def Let_def split: sum.splits)

lemma layer_1_score_bounds:
  assumes "layer_1_internal_verification dp = Inr l1"
  shows "0 \<le> l1_score l1 \<and> l1_score l1 \<le> 100"
proof -
  from layer_1_score_eq[OF assms] obtain sc qc where
    sc: "check_source_authenticity dp = Inr sc" and qc: "check_data_quality dp = Inr qc" and
    eq: "l1_score l1 = (sc_score sc + ic_score (check_data_integrity dp) + qc_score qc) / 3"
    by blast
  from source_score_cases[OF sc] have "0 \<le> sc_score sc \<and> sc_score sc \<le> 99" by auto
  with integrity_score_bounds[of dp] quality_score_bounds[OF qc] eq show ?thesis by simp
qed

section \<open>Facts about the orchestrator\<close>

lemma classify_pass:
  assumes "75 \<le> s"
  shows "classify (composite_score s 99 99) \<noteq> REJECTED"
    and "classify (composite_score s 99 99) \<noteq> BRONZE"
    and "2277 / 25 \<le> composite_score s 99 99"
  using assms by (simp_all add: classify_def composite_score_def)

lemma validate_raises:
  "layer_1_internal_verification dp = Inl e \<Longrightarrow> validate_data_point clock v dp = Inl e"
  by (simp add: validate_data_point_def)

lemma validate_rejects:
  assumes "layer_1_internal_verification dp = Inr l1" and "l1_score l1 < 75"
  shows "validate_data_point clock v dp =
    (let r = \<lparr>rp_data_point = dp, validation_timestamp = clock 0,
               layer_1 = Some l1, layer_2 = None, layer_3 = None,
               final_score = l1_score l1, final_status = Some REJECTED, audit_trail = []\<rparr>
     in Inr (r, v\<lparr>audit_log := audit_log v @ [audit (clock 1) 1 dp (l1_score l1)],
                  rejected_data := rejected_data v @ [r]\<rparr>))"
  using assms by (simp add: validate_data_point_def Let_def)

lemma validate_passes:
  assumes "layer_1_internal_verification dp = Inr l1" and "\<not> l1_score l1 < 75"
  shows "validate_data_point clock v dp =
    (let fs = composite_score (l1_score l1) 99 99;
         r = \<lparr>rp_data_point = dp, validation_timestamp = clock 0,
               layer_1 = Some l1,
               layer_2 = Some (layer_2_external_verification (\<lambda>k. clock (k + 2)) dp),
               layer_3 = Some (layer_3_reproducibility_test dp),
               final_score = fs, final_status = Some (classify fs), audit_trail = []\<rparr>
     in Inr (r, v\<lparr>audit_log := audit_log v @
                      [audit (clock 1) 1 dp (l1_score l1), audit (clock 7) 2 dp 99,
                       audit (clock 8) 3 dp 99],
                  validation_history := validation_history v @ [r]\<rparr>))"
proof -
  from assms(2) have "75 \<le> l1_score l1" by simp
  from classify_pass(1)[OF this] assms show ?thesis
    by (simp add: validate_data_point_def Let_def layer_2_stub_score layer_3_stub_score)
qed

lemma validate_returns_layer_1:
  assumes "validate_data_point clock v dp = Inr (r, v')"
  obtains l1 where "layer_1_internal_verification dp = Inr l1"
  using assms by (cases "layer_1_internal_verification dp") (simp_all add: validate_raises)

section \<open>Early exit\<close>

text \<open>
  Claim C1. Whenever a layer that was executed scores below 75, the report is REJECTED
  with that layer's score as final score and no later layer has run; every call
  appends to the audit log exactly one entry per executed layer, numbered from 1 and
  carrying the layer's score, so a rejected run appends one or two entries.
\<close>
theorem early_exit_on_low_layer_score:
  assumes "validate_data_point clock v dp = Inr (r, v')"
  shows "(\<forall>i < length (executed_scores r). executed_scores r ! i < 75 \<longrightarrow>
            final_status r = Some REJECTED \<and> final_score r = executed_scores r ! i \<and>
            length (executed_scores r) = Suc i \<and> (Suc i = 1 \<or> Suc i = 2)) \<and>
         (\<exists>new. audit_log v' = audit_log v @ new \<and>
            map ae_score new = executed_scores r \<and>
            map ae_layer new = [1 ..< Suc (length (executed_scores r))] \<and>
            (final_status r = Some REJECTED \<longrightarrow> length new = 1 \<or> length new = 2))"
proof -
  from assms obtain l1 where l1: "layer_1_internal_verification dp = Inr l1"
    by (rule validate_returns_layer_1)
  show ?thesis
  proof (cases "l1_score l1 < 75")
    case True
    from validate_rejects[OF l1 True, of clock v] assms
    have r: "executed_scores r = [l1_score l1]" "final_status r = Some REJECTED"
      "final_score r = l1_score l1"
      and v': "audit_log v' = audit_log v @ [audit (clock 1) 1 dp (l1_score l1)]"
      by (auto simp: Let_def executed_scores_def)
    show ?thesis unfolding r v' by (simp add: audit_def)
  next
    case False
    then have ge: "75 \<le> l1_score l1" by simp
    from validate_passes[OF l1 False, of clock v] assms classify_pass(1)[OF ge]
    have r: "executed_scores r = [l1_score l1, 99, 99]" "final_status r \<noteq> Some REJECTED"
      and v': "audit_log v' = audit_log v @
                      [audit (clock 1) 1 dp (l1_score l1), audit (clock 7) 2 dp 99,
                       audit (clock 8) 3 dp 99]"
      by (auto simp: Let_def executed_scores_def layer_2_stub_score layer_3_stub_score)
    have "\<forall>s \<in> set (executed_scores r). \<not> s < 75"
      unfolding r using False by simp
    then have idx: "\<forall>i < length (executed_scores r). \<not> executed_scores r ! i < 75"
      by (simp only: all_set_conv_all_nth)
    have "map ae_score [audit (clock 1) 1 dp (l1_score l1), audit (clock 7) 2 dp 99,
                       audit (clock 8) 3 dp 99] = executed_scores r \<and>
          map ae_layer [audit (clock 1) 1 dp (l1_score l1), audit (clock 7) 2 dp 99,
                       audit (clock 8) 3 dp 99] = [1 ..< Suc (length (executed_scores r))]"
      unfolding r by (simp add: audit_def upt_rec)
    with idx r(2) v' show ?thesis by blast
  qed
qed

theorem early_exit_on_low_layer_score_witness:
  "(case validate_data_point example_clock init_validator record_without_address of
      Inl e \<Rightarrow> False
    | Inr (r, v') \<Rightarrow>
        executed_scores r = [667 / 9] \<and> final_status r = Some REJECTED \<and>
        final_score r = 667 / 9 \<and> map ae_layer (audit_log v') = [1])"
proof -
  have run: "\<exists>r v'. validate_data_point example_clock init_validator record_without_address = Inr (r, v')
      \<and> executed_scores r = [667 / 9] \<and> audit_log init_validator = []"
    by (simp add: validate_data_point_def layer_defs example_defs record_without_address_def executed_scores_def Let_def)
  then obtain r v' where
    eq: "validate_data_point example_clock init_validator record_without_address = Inr (r, v')"
    and ex: "executed_scores r = [667 / 9]" and em: "audit_log init_validator = []" by blast
  from early_exit_on_low_layer_score[OF eq] ex em eq
  show ?thesis by (auto simp: upt_rec)
qed

section \<open>The stand-ins of layers 2 and 3\<close>

text \<open>
  Claim C10. The stand-ins make layer 2 and layer 3 score 99 on every record. Hence a
  report whose layer 1 score is at least 75 has a final score of at least
  0.33 * 75 + 0.33 * 99 + 0.34 * 99, no report is BRONZE, and a REJECTED report was
  rejected by layer 1, before layers 2 and 3 ran.
\<close>
theorem stand_ins_fix_layers_2_and_3:
  assumes "validate_data_point clock v dp = Inr (r, v')"
  shows "l2_score (layer_2_external_verification clock2 dp) = 99 \<and>
         l3_score (layer_3_reproducibility_test dp) = 99 \<and>
         (\<exists>l1. layer_1 r = Some l1 \<and>
            (75 \<le> l1_score l1 \<longrightarrow> 33 / 100 * 75 + 33 / 100 * 99 + 34 / 100 * 99 \<le> final_score r) \<and>
            (final_status r = Some REJECTED \<longrightarrow>
               l1_score l1 < 75 \<and> layer_2 r = None \<and> layer_3 r = None)) \<and>
         final_status r \<noteq> Some BRONZE"
proof -
  from assms obtain l1 where l1: "layer_1_internal_verification dp = Inr l1"
    by (cases "layer_1_internal_verification dp") (simp_all add: validate_raises)
  show ?thesis
  proof (cases "l1_score l1 < 75")
    case True
    from validate_rejects[OF l1 True, of clock v] assms True show ?thesis
      by (auto simp: Let_def layer_2_stub_score layer_3_stub_score)
  next
    case False
    then have ge: "75 \<le> l1_score l1" by simp
    from validate_passes[OF l1 False, of clock v] assms classify_pass[OF ge] show ?thesis
      by (auto simp: Let_def layer_2_stub_score layer_3_stub_score)
  qed
qed

theorem stand_ins_fix_layers_2_and_3_witness:
  "(case validate_data_point example_clock init_validator example_record of
      Inl e \<Rightarrow> False
    | Inr (r, v') \<Rightarrow>
        l2_score (layer_2_external_verification example_clock example_record) = 99 \<and>
        l3_score (layer_3_reproducibility_test example_record) = 99 \<and>
        final_score r = 2453 / 25 \<and> final_status r = Some GOLD)"
proof -
  have run: "\<exists>r v'. validate_data_point example_clock init_validator example_record = Inr (r, v') \<and> final_score r = 2453 / 25 \<and> final_status r = Some GOLD"
    by (simp add: validate_data_point_def layer_defs example_defs composite_score_def classify_def audit_def Let_def)
  then obtain r v' where eq: "validate_data_point example_clock init_validator example_record = Inr (r, v')"
     and fs: "final_score r = 2453 / 25" "final_status r = Some GOLD" by blast
  from stand_ins_fix_layers_2_and_3[OF eq, of example_clock] eq fs
  show ?thesis by simp
qed

section \<open>Range of the final score and status\<close>

text \<open>
  Claim C8. A returned report has a final score between 0 and 100 and one of the four
  statuses.
\<close>
theorem final_score_and_status_range:
  assumes "validate_data_point clock v dp = Inr (r, v')"
  shows "0 \<le> final_score r \<and> final_score r \<le> 100 \<and>
         final_status r \<in> {Some GOLD, Some SILVER, Some BRONZE, Some REJECTED}"
proof -
  from assms obtain l1 where l1: "layer_1_internal_verification dp = Inr l1"
    by (cases "layer_1_internal_verification dp") (simp_all add: validate_raises)
  note b = layer_1_score_bounds[OF l1]
  show ?thesis
  proof (cases "l1_score l1 < 75")
    case True
    from validate_rejects[OF l1 True, of clock v] assms b show ?thesis
      by (auto simp: Let_def)
  next
    case False
    have st: "classify x \<in> {GOLD, SILVER, BRONZE, REJECTED}" for x
      by (cases "classify x") simp_all
    from b False have "0 \<le> composite_score (l1_score l1) 99 99 \<and> composite_score (l1_score l1) 99 99 \<le> 100"
      by (simp add: composite_score_def)
    with validate_passes[OF l1 False, of clock v] assms st[of "composite_score (l1_score l1) 99 99"] show ?thesis
      by (auto simp: Let_def)
  qed
qed

theorem final_score_and_status_range_witness:
  "(case validate_data_point example_clock init_validator Map.empty of
      Inl e \<Rightarrow> False
    | Inr (r, v') \<Rightarrow>
        0 \<le> final_score r \<and> final_score r \<le> 100 \<and>
        final_status r \<in> {Some GOLD, Some SILVER, Some BRONZE, Some REJECTED})"
proof -
  have "\<exists>r v'. validate_data_point example_clock init_validator Map.empty = Inr (r, v')"
    by (simp add: validate_data_point_def layer_defs example_defs Let_def)
  then obtain r v' where
    eq: "validate_data_point example_clock init_validator Map.empty = Inr (r, v')" by blast
  from final_score_and_status_range[OF eq] eq show ?thesis by simp
qed

section \<open>Composite score and bands\<close>

lemma classify_bands:
  "(classify fs = GOLD \<longleftrightarrow> 95 \<le> fs) \<and>
   (classify fs = SILVER \<longleftrightarrow> 85 \<le> fs \<and> fs < 95) \<and>
   (classify fs = BRONZE \<longleftrightarrow> 75 \<le> fs \<and> fs < 85) \<and>
   (classify fs = REJECTED \<longleftrightarrow> fs < 75)"
  by (auto simp: classify_def)

text \<open>
  The roundings of the example of the specification, one operation at a time: the two
  literals, the three products, the first sum and the result. In exact arithmetic the
  same scores give 85.
\<close>

lemma double_literals:
  "double_round (33 / 100) = 5944751508129055 / 2 ^ 54"
  "double_round (34 / 100) = 6124895493223875 / 2 ^ 54"
  by code_simp+

lemma double_products:
  "double_mul 80 (double_round (33 / 100)) = 7430939385161319 / 2 ^ 48"
  "double_mul 90 (double_round (33 / 100)) = 2089951702076621 / 2 ^ 46"
  "double_mul 85 (double_round (34 / 100)) = 8134626826937959 / 2 ^ 48"
  by code_simp+

lemma double_first_sum:
  "double_add (double_mul 80 (double_round (33 / 100)))
     (double_mul 90 (double_round (33 / 100))) = 3947686548366951 / 2 ^ 46"
  by code_simp

lemma composite_double_example: "composite_score_double 80 90 85 = 85 + 1 / 2 ^ 46"
  by code_simp

lemma composite_exact_example: "composite_score 80 90 85 = 85"
  by (simp add: composite_score_def)

text \<open>
  Soundness of the rounding: \<open>double_round x\<close> has a significand of 53 bits in the
  binade of \<open>x\<close> and differs from \<open>x\<close> by at most half a unit in the last place.
\<close>

lemma round_half_even_error: "\<bar>of_int (round_half_even y) - y\<bar> \<le> 1 / 2"
proof -
  have "of_int \<lfloor>y\<rfloor> \<le> y" "y < of_int \<lfloor>y\<rfloor> + 1" by linarith+
  then show ?thesis by (auto simp: round_half_even_def Let_def)
qed

lemma bit_length_nonneg: "0 \<le> bit_length k"
proof (induction k rule: bit_length.induct)
  case (1 k)
  show ?case
  proof (cases "k \<le> 0")
    case True
    then show ?thesis by (subst bit_length.simps) simp
  next
    case False
    with "1.IH" have "0 \<le> bit_length (k div 2)" by simp
    with False show ?thesis by (subst bit_length.simps) simp
  qed
qed

lemma bit_length_pos: "0 < k \<Longrightarrow> 0 < bit_length k"
  using bit_length_nonneg[of "k div 2"] by (subst bit_length.simps) simp

lemma pow2_pos: "0 < pow2 e"
  by (simp add: pow2_def)

lemma pow2_Suc: "pow2 (e + 1) = 2 * pow2 e"
proof (cases "0 \<le> e")
  case True
  then show ?thesis by (simp add: pow2_def nat_add_distrib)
next
  case False
  then have "nat (- e) = Suc (nat (- (e + 1)))" by simp
  with False show ?thesis by (simp add: pow2_def)
qed

lemma pow2_diff: "pow2 (a - b) = pow2 a / pow2 b"
proof -
  have "pow2 e = 2 powi e" for e
    by (simp add: pow2_def power_int_def field_simps)
  then show ?thesis by (simp add: power_int_diff)
qed

lemma bit_length_bounds:
  "0 < k \<Longrightarrow> pow2 (bit_length k - 1) \<le> of_int k \<and> of_int k < pow2 (bit_length k)"
proof (induction k rule: bit_length.induct)
  case (1 k)
  show ?case
  proof (cases "k = 1")
    case True
    have "bit_length 1 = 1" by code_simp
    with True show ?thesis by (simp add: pow2_def)
  next
    case False
    with "1.prems" have h: "0 < k div 2" by simp
    from "1.prems" have bl: "bit_length k = 1 + bit_length (k div 2)"
      by (subst bit_length.simps) simp
    from "1.IH" "1.prems" h
    have ih: "pow2 (bit_length (k div 2) - 1) \<le> of_int (k div 2)"
      "of_int (k div 2) < pow2 (bit_length (k div 2))" by simp_all
    have e: "2 * (k div 2) + k mod 2 = k" by simp
    have "(of_int k :: rat) = of_int (2 * (k div 2) + k mod 2)" by (simp only: e)
    also have "\<dots> = 2 * of_int (k div 2) + of_int (k mod 2)"
      by (simp only: of_int_add of_int_mult of_int_numeral)
    finally have ke: "(of_int k :: rat) = 2 * of_int (k div 2) + of_int (k mod 2)" .
    have "0 \<le> k mod 2" "k mod 2 \<le> 1" by simp_all
    then have "(0::rat) \<le> of_int (k mod 2)" "(of_int (k mod 2) :: rat) \<le> 1"
      by (simp_all only: of_int_0_le_iff of_int_le_1_iff)
    with ke have k2: "(of_int k :: rat) \<ge> 2 * of_int (k div 2)"
      "(of_int k :: rat) < 2 * (of_int (k div 2) + 1)"
      by simp_all
    have lo: "pow2 (bit_length k - 1) \<le> of_int k"
    proof -
      have "pow2 (bit_length k - 1) = 2 * pow2 (bit_length (k div 2) - 1)"
        using pow2_Suc[of "bit_length (k div 2) - 1"] bl by simp
      with ih(1) k2(1) show ?thesis by simp
    qed
    have hi: "of_int k < pow2 (bit_length k)"
    proof -
      have p: "pow2 (bit_length k) = 2 * pow2 (bit_length (k div 2))"
        using pow2_Suc[of "bit_length (k div 2)"] bl by (simp add: add.commute)
      from bit_length_pos[OF h] have "0 \<le> bit_length (k div 2)" by simp
      then have "pow2 (bit_length (k div 2)) = of_int (2 ^ nat (bit_length (k div 2)))"
        by (simp add: pow2_def)
      with ih(2) have "k div 2 < 2 ^ nat (bit_length (k div 2))"
        by (simp only: of_int_less_iff)
      then have "k div 2 + 1 \<le> 2 ^ nat (bit_length (k div 2))" by simp
      then have "(of_int (k div 2 + 1) :: rat) \<le> of_int (2 ^ nat (bit_length (k div 2)))"
        by (simp only: of_int_le_iff)
      with \<open>pow2 (bit_length (k div 2)) = of_int (2 ^ nat (bit_length (k div 2)))\<close>
      have "(of_int (k div 2) + 1 :: rat) \<le> pow2 (bit_length (k div 2))" by simp
      with k2(2) p show ?thesis by simp
    qed
    from lo hi show ?thesis by simp
  qed
qed


lemma binary_exponent_bounds:
  assumes "0 < x"
  shows "pow2 (binary_exponent x) \<le> x \<and> x < pow2 (binary_exponent x + 1)"
proof -
  obtain p q where pq: "quotient_of x = (p, q)" by (cases "quotient_of x")
  then have q: "0 < q" and x: "x = of_int p / of_int q"
    by (simp_all add: quotient_of_denom_pos quotient_of_div)
  from assms x q have p: "0 < p" by (simp add: zero_less_divide_iff)
  define d where "d = bit_length p - bit_length q"
  from bit_length_bounds[OF p] bit_length_bounds[OF q]
  have bp: "pow2 (bit_length p - 1) \<le> of_int p" "of_int p < pow2 (bit_length p)"
    and bq: "pow2 (bit_length q - 1) \<le> of_int q" "of_int q < pow2 (bit_length q)"
    by simp_all
  have qpos: "(0::rat) < of_int q" using q by simp
  have lo: "pow2 (d - 1) \<le> x"
  proof -
    have "pow2 (d - 1) = pow2 (bit_length p - 1) / pow2 (bit_length q)"
      using pow2_diff[of "bit_length p - 1" "bit_length q"] by (simp add: d_def algebra_simps)
    also have "\<dots> \<le> of_int p / of_int q"
      using bp(1) bq(2) qpos pow2_pos[of "bit_length p - 1"]
      by (intro frac_le) simp_all
    finally show ?thesis by (simp add: x)
  qed
  have hi: "x < pow2 (d + 1)"
  proof -
    have "of_int p / of_int q < pow2 (bit_length p) / pow2 (bit_length q - 1)"
      using bp(2) bq(1) qpos pow2_pos[of "bit_length q - 1"] p
      by (intro frac_less) simp_all
    also have "\<dots> = pow2 (d + 1)"
      using pow2_diff[of "bit_length p" "bit_length q - 1"] by (simp add: d_def algebra_simps)
    finally show ?thesis by (simp add: x)
  qed
  have be: "binary_exponent x = (if pow2 d \<le> x then d else d - 1)"
    by (simp add: binary_exponent_def pq d_def)
  show ?thesis
  proof (cases "pow2 d \<le> x")
    case True
    with be hi show ?thesis by simp
  next
    case False
    with be lo show ?thesis by simp
  qed
qed

lemma double_round_error:
  assumes "x \<noteq> 0"
  shows "\<bar>double_round x - x\<bar> \<le> pow2 (binary_exponent \<bar>x\<bar> - 53)"
proof -
  define u where "u = pow2 (binary_exponent \<bar>x\<bar> - 52)"
  define m where "m = round_half_even (\<bar>x\<bar> / u)"
  have u: "0 < u" by (simp add: u_def pow2_pos)
  have dr: "double_round x = sgn x * (of_int m * u)"
    using assms by (simp add: double_round_def u_def m_def Let_def)
  have "double_round x - x = sgn x * (of_int m * u - \<bar>x\<bar>)"
    by (simp add: dr algebra_simps mult_sgn_abs abs_mult_sgn)
  then have "\<bar>double_round x - x\<bar> = \<bar>of_int m * u - \<bar>x\<bar>\<bar>"
    using assms by (simp add: abs_mult abs_sgn_eq)
  also have "of_int m * u - \<bar>x\<bar> = (of_int m - \<bar>x\<bar> / u) * u"
    using u by (simp add: algebra_simps)
  also have "\<bar>(of_int m - \<bar>x\<bar> / u) * u\<bar> = \<bar>of_int m - \<bar>x\<bar> / u\<bar> * u"
    using u by (simp add: abs_mult)
  also have "\<dots> \<le> 1 / 2 * u"
    using round_half_even_error[of "\<bar>x\<bar> / u"] u
    by (intro mult_right_mono) (simp_all add: m_def)
  also have "1 / 2 * u = pow2 (binary_exponent \<bar>x\<bar> - 53)"
    using pow2_Suc[of "binary_exponent \<bar>x\<bar> - 53"] by (simp add: u_def)
  finally show ?thesis .
qed

lemma double_round_significand:
  assumes "0 < x"
  shows "\<exists>m. double_round x = of_int m * pow2 (binary_exponent x - 52) \<and>
           2 ^ 52 \<le> m \<and> m \<le> 2 ^ 53"
proof -
  define u where "u = pow2 (binary_exponent x - 52)"
  define y where "y = x / u"
  define m where "m = round_half_even y"
  have u: "0 < u" by (simp add: u_def pow2_pos)
  have p52: "pow2 52 = 2 ^ 52" by (simp add: pow2_def)
  have "u = pow2 (binary_exponent x) / 2 ^ 52"
    using pow2_diff[of "binary_exponent x" 52] by (simp add: u_def p52)
  then have ue: "pow2 (binary_exponent x) = 2 ^ 52 * u" by simp
  from binary_exponent_bounds[OF assms] pow2_Suc[of "binary_exponent x"]
  have "2 ^ 52 * u \<le> x" "x < 2 ^ 53 * u" by (simp_all add: ue)
  with u have y: "2 ^ 52 \<le> y" "y < 2 ^ 53"
    by (simp_all add: y_def pos_le_divide_eq pos_divide_less_eq)
  from round_half_even_error[of y] have e: "\<bar>of_int m - y\<bar> \<le> 1 / 2" by (simp add: m_def)
  from e y(1) have "(2 ^ 52 :: rat) - 1 / 2 \<le> of_int m" by linarith
  then have "(of_int (2 ^ 52 - 1) :: rat) < of_int m" by simp
  then have "2 ^ 52 - 1 < m" by (simp only: of_int_less_iff)
  then have lo: "2 ^ 52 \<le> m" by simp
  from e y(2) have "(of_int m :: rat) < 2 ^ 53 + 1 / 2" by linarith
  then have "(of_int m :: rat) < of_int (2 ^ 53 + 1)" by simp
  then have "m < 2 ^ 53 + 1" by (simp only: of_int_less_iff)
  then have hi: "m \<le> 2 ^ 53" by simp
  have "double_round x = of_int m * u"
    using assms by (simp add: double_round_def u_def m_def y_def Let_def)
  with lo hi show ?thesis unfolding u_def by blast
qed

text \<open>
  For layer scores between 0 and 100 the doubles of the code and the exact value of the
  model differ by at most 2^-44.
\<close>

lemma pow2_mono: "a \<le> b \<Longrightarrow> pow2 a \<le> pow2 b"
proof -
  have "pow2 e = 2 powi e" for e
    by (simp add: pow2_def power_int_def field_simps)
  then show "a \<le> b \<Longrightarrow> pow2 a \<le> pow2 b"
    by (simp add: power_int_increasing)
qed

lemma double_round_error_below:
  assumes "\<bar>x\<bar> < pow2 (k + 1)"
  shows "\<bar>double_round x - x\<bar> \<le> pow2 (k - 53)"
proof (cases "x = 0")
  case True
  then show ?thesis using pow2_pos[of "k - 53"] by (simp add: double_round_def)
next
  case False
  then have "0 < \<bar>x\<bar>" by simp
  from binary_exponent_bounds[OF this] assms
  have "pow2 (binary_exponent \<bar>x\<bar>) < pow2 (k + 1)" by simp
  then have "\<not> k + 1 \<le> binary_exponent \<bar>x\<bar>"
    using pow2_mono[of "k + 1" "binary_exponent \<bar>x\<bar>"] by auto
  then have "binary_exponent \<bar>x\<bar> - 53 \<le> k - 53" by simp
  from pow2_mono[OF this] double_round_error[OF False] show ?thesis by simp
qed

lemma composite_double_close:
  assumes "0 \<le> s1" "s1 \<le> 100" "0 \<le> s2" "s2 \<le> 100" "0 \<le> s3" "s3 \<le> 100"
  shows "\<bar>composite_score_double s1 s2 s3 - composite_score s1 s2 s3\<bar> \<le> 1 / 2 ^ 44"
proof -
  define c where "c = double_round (33 / 100)"
  define c' where "c' = double_round (34 / 100)"
  define p1 where "p1 = double_mul s1 c"
  define p2 where "p2 = double_mul s2 c"
  define p3 where "p3 = double_mul s3 c'"
  define t where "t = double_add p1 p2"
  have c: "c = 5944751508129055 / 2 ^ 54" and c': "c' = 6124895493223875 / 2 ^ 54"
    unfolding c_def c'_def by (rule double_literals)+
  have k48: "pow2 (5 - 53) = 1 / 2 ^ 48" and k47: "pow2 (6 - 53) = 1 / 2 ^ 47"
    and k6: "pow2 6 = 64" and k7: "pow2 7 = 128"
    by (simp_all add: pow2_def)
  have cb: "0 \<le> c" "c \<le> 17 / 50" "0 \<le> c'" "c' \<le> 7 / 20"
    unfolding c c' by simp_all
  have m1: "0 \<le> s1 * c" "s1 * c \<le> 34"
  proof -
    show "0 \<le> s1 * c" using assms cb by simp
    have "s1 * c \<le> 100 * (17 / 50)" using assms cb by (intro mult_mono) simp_all
    then show "s1 * c \<le> 34" by simp
  qed
  have m2: "0 \<le> s2 * c" "s2 * c \<le> 34"
  proof -
    show "0 \<le> s2 * c" using assms cb by simp
    have "s2 * c \<le> 100 * (17 / 50)" using assms cb by (intro mult_mono) simp_all
    then show "s2 * c \<le> 34" by simp
  qed
  have m3: "0 \<le> s3 * c'" "s3 * c' \<le> 35"
  proof -
    show "0 \<le> s3 * c'" using assms cb by simp
    have "s3 * c' \<le> 100 * (7 / 20)" using assms cb by (intro mult_mono) simp_all
    then show "s3 * c' \<le> 35" by simp
  qed
  have e1: "\<bar>p1 - s1 * c\<bar> \<le> 1 / 2 ^ 48"
    unfolding p1_def double_mul_def k48[symmetric]
    using m1 by (intro double_round_error_below) (simp add: k6)
  have e2: "\<bar>p2 - s2 * c\<bar> \<le> 1 / 2 ^ 48"
    unfolding p2_def double_mul_def k48[symmetric]
    using m2 by (intro double_round_error_below) (simp add: k6)
  have e3: "\<bar>p3 - s3 * c'\<bar> \<le> 1 / 2 ^ 48"
    unfolding p3_def double_mul_def k48[symmetric]
    using m3 by (intro double_round_error_below) (simp add: k6)
  have small: "(1 :: rat) / 2 ^ 48 \<le> 1" "(1 :: rat) / 2 ^ 47 \<le> 1" by simp_all
  have b12: "\<bar>p1 + p2\<bar> < 128" using e1 e2 m1 m2 small by linarith
  have e4: "\<bar>t - (p1 + p2)\<bar> \<le> 1 / 2 ^ 47"
    unfolding t_def double_add_def k47[symmetric]
    using b12 by (intro double_round_error_below) (simp add: k7)
  have b3: "\<bar>t + p3\<bar> < 128"
    using e1 e2 e3 e4 m1 m2 m3 small by linarith
  have e5: "\<bar>double_add t p3 - (t + p3)\<bar> \<le> 1 / 2 ^ 47"
    unfolding double_add_def k47[symmetric]
    using b3 by (intro double_round_error_below) (simp add: k7)
  have d: "composite_score_double s1 s2 s3 = double_add t p3"
    by (simp add: composite_score_double_def t_def p1_def p2_def p3_def c_def c'_def)
  have x: "composite_score s1 s2 s3 = s1 * (33 / 100) + s2 * (33 / 100) + s3 * (34 / 100)"
    by (simp add: composite_score_def)
  have l1: "\<bar>s1 * c - s1 * (33 / 100)\<bar> \<le> 100 * (1 / 2 ^ 55)"
    and l2: "\<bar>s2 * c - s2 * (33 / 100)\<bar> \<le> 100 * (1 / 2 ^ 55)"
    and l3: "\<bar>s3 * c' - s3 * (34 / 100)\<bar> \<le> 100 * (1 / 2 ^ 55)"
  proof -
    have cc: "\<bar>c - 33 / 100\<bar> \<le> 1 / 2 ^ 55" "\<bar>c' - 34 / 100\<bar> \<le> 1 / 2 ^ 55"
      unfolding c c' by simp_all
    have "\<bar>s * a - s * b\<bar> \<le> 100 * e" if "0 \<le> s" "s \<le> 100" "\<bar>a - b\<bar> \<le> e" for s a b e :: rat
    proof -
      have "\<bar>s * a - s * b\<bar> = s * \<bar>a - b\<bar>" using that(1)
        by (simp add: abs_mult right_diff_distrib[symmetric])
      also have "\<dots> \<le> 100 * e" using that by (intro mult_mono) simp_all
      finally show ?thesis .
    qed
    from this[OF assms(1,2) cc(1)] this[OF assms(3,4) cc(1)] this[OF assms(5,6) cc(2)]
    show "\<bar>s1 * c - s1 * (33 / 100)\<bar> \<le> 100 * (1 / 2 ^ 55)"
      "\<bar>s2 * c - s2 * (33 / 100)\<bar> \<le> 100 * (1 / 2 ^ 55)"
      "\<bar>s3 * c' - s3 * (34 / 100)\<bar> \<le> 100 * (1 / 2 ^ 55)" by simp_all
  qed
  from e1 e2 e3 e4 e5 l1 l2 l3
  have "\<bar>double_add t p3 - (s1 * (33 / 100) + s2 * (33 / 100) + s3 * (34 / 100))\<bar>
      \<le> 1 / 2 ^ 47 + 1 / 2 ^ 47 + 3 * (1 / 2 ^ 48) + 300 * (1 / 2 ^ 55)"
    by linarith
  also have "\<dots> \<le> 1 / 2 ^ 44" by simp
  finally show ?thesis by (simp add: d x)
qed

text \<open>
  When the exact composite keeps a distance of more than 2^-44 from the thresholds
  95, 85 and 75, the doubles of the code fall in the same band.
\<close>

lemma classify_double_agrees:
  assumes "\<bar>d - x\<bar> \<le> 1 / 2 ^ 44"
    and "1 / 2 ^ 44 < \<bar>x - 95\<bar>" and "1 / 2 ^ 44 < \<bar>x - 85\<bar>" and "1 / 2 ^ 44 < \<bar>x - 75\<bar>"
  shows "classify d = classify x"
proof -
  have "(95 \<le> d) = (95 \<le> x)" "(85 \<le> d) = (85 \<le> x)" "(75 \<le> d) = (75 \<le> x)"
    using assms by linarith+
  then show ?thesis by (simp add: classify_def)
qed

text \<open>
  Claim C2 as stated fails at its own example: with the layer scores 80, 90 and 85 the
  expression of the code, evaluated in doubles, is 85.00000000000001, that is
  85 + 2^-46, and not 85.0.
\<close>

theorem composite_of_example_is_not_85:
  "composite_score_double 80 90 85 = 85 + 1 / 2 ^ 46 \<and> composite_score_double 80 90 85 \<noteq> 85"
  by (simp add: composite_double_example)

text \<open>
  Claim C2, amended. When all three layers score at least 75, the final score is
  layer1 * 0.33 + layer2 * 0.33 + layer3 * 0.34 and the status is GOLD from 95,
  SILVER from 85 to below 95, BRONZE from 75 to below 85 and REJECTED below 75, which
  is the classification of the code on every score; the layer scores 80, 90 and 85
  give, in the doubles of the code, the final score 85 + 2^-46 and the status SILVER.
\<close>

theorem composite_score_and_bands:
  assumes "validate_data_point clock v dp = Inr (r, v')"
    and "layer_1 r = Some l1" and "layer_2 r = Some l2" and "layer_3 r = Some l3"
    and "75 \<le> l1_score l1" and "75 \<le> l2_score l2" and "75 \<le> l3_score l3"
  shows "final_score r =
           l1_score l1 * (33 / 100) + l2_score l2 * (33 / 100) + l3_score l3 * (34 / 100) \<and>
         (final_status r = Some GOLD \<longleftrightarrow> 95 \<le> final_score r) \<and>
         (final_status r = Some SILVER \<longleftrightarrow> 85 \<le> final_score r \<and> final_score r < 95) \<and>
         (final_status r = Some BRONZE \<longleftrightarrow> 75 \<le> final_score r \<and> final_score r < 85) \<and>
         (final_status r = Some REJECTED \<longleftrightarrow> final_score r < 75) \<and>
         final_status r = Some (classify (final_score r)) \<and>
         (classify fs = GOLD \<longleftrightarrow> 95 \<le> fs) \<and>
         (classify fs = SILVER \<longleftrightarrow> 85 \<le> fs \<and> fs < 95) \<and>
         (classify fs = BRONZE \<longleftrightarrow> 75 \<le> fs \<and> fs < 85) \<and>
         (classify fs = REJECTED \<longleftrightarrow> fs < 75) \<and>
         composite_score_double 80 90 85 = 85 + 1 / 2 ^ 46 \<and>
         classify (composite_score_double 80 90 85) = SILVER"
proof -
  from assms(1) obtain l where l: "layer_1_internal_verification dp = Inr l"
    by (rule validate_returns_layer_1)
  have ex: "composite_score_double 80 90 85 = 85 + 1 / 2 ^ 46 \<and>
      classify (composite_score_double 80 90 85) = SILVER"
    by (simp add: composite_double_example classify_def)
  show ?thesis
  proof (cases "l1_score l < 75")
    case True
    from validate_rejects[OF l True, of clock v] assms(1,3) show ?thesis
      by (auto simp: Let_def)
  next
    case False
    from validate_passes[OF l False, of clock v] assms(1)
    have r: "layer_1 r = Some l"
      "layer_2 r = Some (layer_2_external_verification (\<lambda>k. clock (k + 2)) dp)"
      "layer_3 r = Some (layer_3_reproducibility_test dp)"
      "final_score r = composite_score (l1_score l) 99 99"
      "final_status r = Some (classify (final_score r))"
      by (auto simp: Let_def)
    from r(1-3) assms(2-4) have "l1 = l" "l2_score l2 = 99" "l3_score l3 = 99"
      by (auto simp: layer_2_stub_score layer_3_stub_score)
    with r(4) have fs: "final_score r =
           l1_score l1 * (33 / 100) + l2_score l2 * (33 / 100) + l3_score l3 * (34 / 100)"
      by (simp add: composite_score_def)
    have bands:
      "(final_status r = Some GOLD \<longleftrightarrow> 95 \<le> final_score r) \<and>
       (final_status r = Some SILVER \<longleftrightarrow> 85 \<le> final_score r \<and> final_score r < 95) \<and>
       (final_status r = Some BRONZE \<longleftrightarrow> 75 \<le> final_score r \<and> final_score r < 85) \<and>
       (final_status r = Some REJECTED \<longleftrightarrow> final_score r < 75)"
      using classify_bands[of "final_score r"] by (simp add: r(5))
    from fs bands r(5) classify_bands[of fs] ex show ?thesis by blast
  qed
qed

theorem composite_score_and_bands_witness:
  "(case validate_data_point example_clock init_validator example_record of
      Inl e \<Rightarrow> False
    | Inr (r, v') \<Rightarrow>
        map_option l1_score (layer_1 r) = Some (289 / 3) \<and>
        map_option l2_score (layer_2 r) = Some 99 \<and>
        map_option l3_score (layer_3 r) = Some 99 \<and>
        final_score r = (289 / 3) * (33 / 100) + 99 * (33 / 100) + 99 * (34 / 100) \<and>
        final_status r = Some GOLD) \<and>
   (case validate_data_point example_clock init_validator record_with_blank_address of
      Inl e \<Rightarrow> False
    | Inr (r, v') \<Rightarrow>
        map_option l1_score (layer_1 r) = Some (239 / 3) \<and>
        map_option l2_score (layer_2 r) = Some 99 \<and>
        map_option l3_score (layer_3 r) = Some 99 \<and>
        final_score r = (239 / 3) * (33 / 100) + 99 * (33 / 100) + 99 * (34 / 100) \<and>
        final_status r = Some SILVER) \<and>
   classify 80 = BRONZE \<and> classify (74999 / 1000) = REJECTED \<and>
   classify 95 = GOLD \<and> classify 85 = SILVER \<and> classify 75 = BRONZE \<and>
   classify (composite_score_double 80 90 85) = SILVER"
proof -
  have "\<exists>r v' l1 l2 l3.
      validate_data_point example_clock init_validator example_record = Inr (r, v') \<and>
      layer_1 r = Some l1 \<and> layer_2 r = Some l2 \<and> layer_3 r = Some l3 \<and>
      l1_score l1 = 289 / 3 \<and> l2_score l2 = 99 \<and> l3_score l3 = 99"
    by (simp add: validate_data_point_def layer_defs example_defs composite_score_def
        classify_def Let_def)
  then obtain r v' l1 l2 l3 where
    eq: "validate_data_point example_clock init_validator example_record = Inr (r, v')" and
    l: "layer_1 r = Some l1" "layer_2 r = Some l2" "layer_3 r = Some l3" and
    s: "l1_score l1 = 289 / 3" "l2_score l2 = 99" "l3_score l3 = 99"
    by blast
  from s have ge: "75 \<le> l1_score l1" "75 \<le> l2_score l2" "75 \<le> l3_score l3" by simp_all
  note th = composite_score_and_bands[OF eq l ge]
  from th[where fs = 80] have
    fs: "final_score r =
           l1_score l1 * (33 / 100) + l2_score l2 * (33 / 100) + l3_score l3 * (34 / 100)" and
    g: "final_status r = Some GOLD \<longleftrightarrow> 95 \<le> final_score r" and
    b80: "classify 80 = BRONZE \<longleftrightarrow> 75 \<le> (80::rat) \<and> (80::rat) < 85" and
    cex: "classify (composite_score_double 80 90 85) = SILVER"
    by blast+
  from fs s have v: "final_score r = (289 / 3) * (33 / 100) + 99 * (33 / 100) + 99 * (34 / 100)"
    by simp
  from g v have st: "final_status r = Some GOLD" by simp
  from eq l s v st
  have gold: "(case validate_data_point example_clock init_validator example_record of
      Inl e \<Rightarrow> False
    | Inr (r, v') \<Rightarrow>
        map_option l1_score (layer_1 r) = Some (289 / 3) \<and>
        map_option l2_score (layer_2 r) = Some 99 \<and>
        map_option l3_score (layer_3 r) = Some 99 \<and>
        final_score r = (289 / 3) * (33 / 100) + 99 * (33 / 100) + 99 * (34 / 100) \<and>
        final_status r = Some GOLD)"
    by simp
  from b80 have c80: "classify 80 = BRONZE" by simp
  from th[where fs = "74999 / 1000"]
  have "classify (74999 / 1000) = REJECTED \<longleftrightarrow> (74999 / 1000 :: rat) < 75" by blast
  then have c74: "classify (74999 / 1000) = REJECTED" by simp
  from th[where fs = 95] have "classify 95 = GOLD \<longleftrightarrow> (95::rat) \<le> 95" by blast
  then have c95: "classify 95 = GOLD" by simp
  from th[where fs = 85]
  have "classify 85 = SILVER \<longleftrightarrow> (85::rat) \<le> 85 \<and> (85::rat) < 95" by blast
  then have c85: "classify 85 = SILVER" by simp
  from th[where fs = 75]
  have "classify 75 = BRONZE \<longleftrightarrow> (75::rat) \<le> 75 \<and> (75::rat) < 85" by blast
  then have c75: "classify 75 = BRONZE" by simp
  have "\<exists>r v' l1 l2 l3.
      validate_data_point example_clock init_validator record_with_blank_address = Inr (r, v') \<and>
      layer_1 r = Some l1 \<and> layer_2 r = Some l2 \<and> layer_3 r = Some l3 \<and>
      l1_score l1 = 239 / 3 \<and> l2_score l2 = 99 \<and> l3_score l3 = 99"
    by (simp add: validate_data_point_def layer_defs example_defs
        record_with_blank_address_def composite_score_def classify_def Let_def)
  then obtain r2 v2 k1 k2 k3 where
    eq2: "validate_data_point example_clock init_validator record_with_blank_address
            = Inr (r2, v2)" and
    l2: "layer_1 r2 = Some k1" "layer_2 r2 = Some k2" "layer_3 r2 = Some k3" and
    s2: "l1_score k1 = 239 / 3" "l2_score k2 = 99" "l3_score k3 = 99"
    by blast
  from s2 have ge2: "75 \<le> l1_score k1" "75 \<le> l2_score k2" "75 \<le> l3_score k3"
    by simp_all
  from composite_score_and_bands[OF eq2 l2 ge2, where fs = 0] have
    fs2: "final_score r2 =
           l1_score k1 * (33 / 100) + l2_score k2 * (33 / 100) + l3_score k3 * (34 / 100)" and
    g2: "final_status r2 = Some SILVER \<longleftrightarrow> 85 \<le> final_score r2 \<and> final_score r2 < 95"
    by blast+
  from fs2 s2
  have v2: "final_score r2 = (239 / 3) * (33 / 100) + 99 * (33 / 100) + 99 * (34 / 100)"
    by simp
  from g2 v2 have st2: "final_status r2 = Some SILVER" by simp
  from eq2 l2 s2 v2 st2
  have silver: "(case validate_data_point example_clock init_validator
                    record_with_blank_address of
      Inl e \<Rightarrow> False
    | Inr (r, v') \<Rightarrow>
        map_option l1_score (layer_1 r) = Some (239 / 3) \<and>
        map_option l2_score (layer_2 r) = Some 99 \<and>
        map_option l3_score (layer_3 r) = Some 99 \<and>
        final_score r = (239 / 3) * (33 / 100) + 99 * (33 / 100) + 99 * (34 / 100) \<and>
        final_status r = Some SILVER)"
    by simp
  from gold silver c80 c74 c95 c85 c75 cex show ?thesis by blast
qed

section \<open>The final score of rejected and of accepted reports\<close>

text \<open>
  Claim C3. A REJECTED report has as final score the score of the layer that caused the
  rejection: the last layer executed, which scored below 75 after all earlier ones had
  passed. A report with another status has all three layers and the weighted sum of
  their scores as final score.
\<close>
theorem final_score_of_rejected_and_accepted:
  assumes "validate_data_point clock v dp = Inr (r, v')"
  shows "(final_status r = Some REJECTED \<longrightarrow>
            executed_scores r \<noteq> [] \<and> last (executed_scores r) < 75 \<and>
            (\<forall>s \<in> set (butlast (executed_scores r)). 75 \<le> s) \<and>
            final_score r = last (executed_scores r)) \<and>
         (final_status r \<noteq> Some REJECTED \<longrightarrow>
            (\<exists>l1 l2 l3. layer_1 r = Some l1 \<and> layer_2 r = Some l2 \<and> layer_3 r = Some l3 \<and>
               final_score r =
                 l1_score l1 * (33 / 100) + l2_score l2 * (33 / 100) + l3_score l3 * (34 / 100)))"
proof -
  from assms obtain l where l: "layer_1_internal_verification dp = Inr l"
    by (rule validate_returns_layer_1)
  show ?thesis
  proof (cases "l1_score l < 75")
    case True
    from validate_rejects[OF l True, of clock v] assms True show ?thesis
      by (auto simp: Let_def executed_scores_def)
  next
    case False
    then have ge: "75 \<le> l1_score l" by simp
    from validate_passes[OF l False, of clock v] assms classify_pass(1)[OF ge] show ?thesis
      by (auto simp: Let_def composite_score_def layer_2_stub_score layer_3_stub_score)
  qed
qed

theorem final_score_of_rejected_and_accepted_witness:
  "(case validate_data_point example_clock init_validator (example_record(''source'' \<mapsto> PStr ''a blog'')) of
      Inl e \<Rightarrow> False
    | Inr (r, v') \<Rightarrow>
        final_status r = Some REJECTED \<and> executed_scores r = [190 / 3] \<and>
        final_score r = 190 / 3)"
proof -
  have "\<exists>r v'.
      validate_data_point example_clock init_validator (example_record(''source'' \<mapsto> PStr ''a blog'')) = Inr (r, v') \<and>
      final_status r = Some REJECTED \<and> executed_scores r = [190 / 3]"
    by (simp add: validate_data_point_def layer_defs example_defs executed_scores_def Let_def)
  then obtain r v' where
    eq: "validate_data_point example_clock init_validator (example_record(''source'' \<mapsto> PStr ''a blog'')) = Inr (r, v')" and
    s: "final_status r = Some REJECTED" "executed_scores r = [190 / 3]"
    by blast
  from final_score_of_rejected_and_accepted[OF eq] eq s show ?thesis by simp
qed

section \<open>The audit trail of a report\<close>

text \<open>
  Claim C9, evaluated on the first test record of the module: all three layers run and
  the validator's audit log receives the entries of layers 1, 2 and 3, but the
  \<open>audit_trail\<close> of the returned report is the empty list it was created with.
\<close>
theorem audit_trail_of_report_stays_empty:
  "(case validate_data_point example_clock init_validator example_record of
      Inl e \<Rightarrow> False
    | Inr (r, v') \<Rightarrow>
        audit_trail r = [] \<and> length (executed_scores r) = 3 \<and>
        map ae_layer (audit_log v') = [1, 2, 3])"
  by (simp add: validate_data_point_def layer_defs example_defs executed_scores_def
      composite_score_def classify_def audit_def Let_def)

text \<open>The same on every record: no statement of the function appends to the report's list.\<close>

lemma audit_trail_never_appended:
  assumes "validate_data_point clock v dp = Inr (r, v')"
  shows "audit_trail r = []"
proof -
  from assms obtain l where l: "layer_1_internal_verification dp = Inr l"
    by (rule validate_returns_layer_1)
  show ?thesis
  proof (cases "l1_score l < 75")
    case True
    from validate_rejects[OF l True, of clock v] assms show ?thesis by (auto simp: Let_def)
  next
    case False
    from validate_passes[OF l False, of clock v] assms show ?thesis by (auto simp: Let_def)
  qed
qed

section \<open>The ledger\<close>

lemma validate_ledger_step:
  assumes "validate_data_point clock v dp = Inr (r, v')"
  shows "(final_status r = Some REJECTED \<and>
            rejected_data v' = rejected_data v @ [r] \<and>
            validation_history v' = validation_history v) \<or>
         (final_status r \<noteq> Some REJECTED \<and> final_status r \<noteq> None \<and>
            rejected_data v' = rejected_data v \<and>
            validation_history v' = validation_history v @ [r])"
proof -
  from assms obtain l where l: "layer_1_internal_verification dp = Inr l"
    by (rule validate_returns_layer_1)
  show ?thesis
  proof (cases "l1_score l < 75")
    case True
    from validate_rejects[OF l True, of clock v] assms show ?thesis
      by (auto simp: Let_def)
  next
    case False
    then have ge: "75 \<le> l1_score l" by simp
    from validate_passes[OF l False, of clock v] assms classify_pass(1)[OF ge] show ?thesis
      by (auto simp: Let_def)
  qed
qed

lemma validate_each_ledger:
  "validate_each clock v dps = Inr (rs, v') \<Longrightarrow>
     length rs = length dps \<and>
     rejected_data v' = rejected_data v @ filter (\<lambda>r. final_status r = Some REJECTED) rs \<and>
     validation_history v' =
       validation_history v @ filter (\<lambda>r. final_status r \<noteq> Some REJECTED) rs"
proof (induction dps arbitrary: clock v rs)
  case Nil
  then show ?case by simp
next
  case (Cons dp dps)
  from Cons.prems obtain r v1 rs' where
    step: "validate_data_point clock v dp = Inr (r, v1)" and
    rest: "validate_each (\<lambda>k. clock (k + clock_readings r)) v1 dps = Inr (rs', v')" and
    rs: "rs = r # rs'"
    by (auto split: sum.splits prod.splits)
  from Cons.IH[OF rest] validate_ledger_step[OF step] rs show ?case by auto
qed

text \<open>
  Claim C7. After any run of validations on a fresh validator, the rejected list holds
  exactly the REJECTED reports and the validation history exactly the others, in the
  order of the calls, no report is in both, and \<open>get_releasable_data\<close> returns
  exactly the reports whose status is GOLD or SILVER.
\<close>
theorem ledger_is_partition:
  assumes "validate_each clock init_validator dps = Inr (rs, v)"
  shows "length rs = length dps \<and>
         get_rejected_data v = filter (\<lambda>r. final_status r = Some REJECTED) rs \<and>
         validation_history v = filter (\<lambda>r. final_status r \<noteq> Some REJECTED) rs \<and>
         set (get_rejected_data v) \<inter> set (validation_history v) = {} \<and>
         set (get_rejected_data v) \<union> set (validation_history v) = set rs \<and>
         get_releasable_data v =
           filter (\<lambda>r. final_status r = Some GOLD \<or> final_status r = Some SILVER) rs"
proof -
  from validate_each_ledger[OF assms]
  have len: "length rs = length dps"
    and rej: "rejected_data v = filter (\<lambda>r. final_status r = Some REJECTED) rs"
    and his: "validation_history v = filter (\<lambda>r. final_status r \<noteq> Some REJECTED) rs"
    by (simp_all add: init_validator_def)
  have rel: "get_releasable_data v =
      filter (\<lambda>r. final_status r = Some GOLD \<or> final_status r = Some SILVER) rs"
    unfolding get_releasable_data_def his
    by (auto intro!: filter_cong)
  from len rej his rel show ?thesis
    by (auto simp: get_rejected_data_def)
qed

theorem ledger_is_partition_witness:
  "(case validate_each example_clock init_validator [example_record, Map.empty] of
      Inl e \<Rightarrow> False
    | Inr (rs, v) \<Rightarrow>
        map final_status rs = [Some GOLD, Some REJECTED] \<and>
        get_rejected_data v = [rs ! 1] \<and>
        validation_history v = [rs ! 0] \<and>
        get_releasable_data v = [rs ! 0])"
proof -
  have "\<exists>rs v. validate_each example_clock init_validator [example_record, Map.empty] = Inr (rs, v) \<and>
      map final_status rs = [Some GOLD, Some REJECTED]"
    by (simp add: validate_data_point_def layer_defs example_defs composite_score_def
        classify_def Let_def)
  then obtain rs v where
    eq: "validate_each example_clock init_validator [example_record, Map.empty] = Inr (rs, v)" and
    st: "map final_status rs = [Some GOLD, Some REJECTED]"
    by (elim exE conjE)
  from st obtain a b where rs: "rs = [a, b]" "final_status a = Some GOLD" "final_status b = Some REJECTED"
    by (auto simp: map_eq_Cons_conv)
  from ledger_is_partition[OF eq] eq rs show ?thesis by simp
qed

text \<open>The last branch of the classification is dead after three passed gates.\<close>

lemma composite_never_rejected:
  "75 \<le> a \<Longrightarrow> 75 \<le> b \<Longrightarrow> 75 \<le> c \<Longrightarrow> classify (composite_score a b c) \<noteq> REJECTED"
  by (simp add: classify_def composite_score_def)

section \<open>Layer 2: agreement and bands\<close>



section \<open>Layer 1: the three checks\<close>

lemma substring_iff: "substring a s \<longleftrightarrow> (\<exists>p q. s = p @ a @ q)"
proof (induction s)
  case Nil
  show ?case by simp
next
  case (Cons c cs)
  show ?case
  proof
    assume "substring a (c # cs)"
    then consider "take (length a) (c # cs) = a" | "substring a cs" by auto
    then show "\<exists>p q. c # cs = p @ a @ q"
    proof cases
      case 1
      then have "c # cs = [] @ a @ drop (length a) (c # cs)"
        by (metis append_Nil append_take_drop_id)
      then show ?thesis by blast
    next
      case 2
      with Cons.IH obtain p q where "cs = p @ a @ q" by blast
      then have "c # cs = (c # p) @ a @ q" by simp
      then show ?thesis by blast
    qed
  next
    assume "\<exists>p q. c # cs = p @ a @ q"
    then obtain p q where pq: "c # cs = p @ a @ q" by blast
    show "substring a (c # cs)"
    proof (cases p)
      case Nil
      with pq have "take (length a) (c # cs) = a" by simp
      then show ?thesis by simp
    next
      case (Cons x p')
      with pq have "cs = p' @ a @ q" by simp
      with Cons.IH have "substring a cs" by blast
      then show ?thesis by simp
    qed
  qed
qed

lemma any_in_str: "any_in as (PStr s) = Inr (\<exists>a \<in> set as. substring a s)"
  by (induction as) simp_all

lemma any_in_list: "any_in as (PList xs) = Inr (\<exists>a \<in> set as. PStr a \<in> set xs)"
  by (induction as) simp_all

lemma any_in_not_container:
  "\<not> is_container x \<Longrightarrow> as \<noteq> [] \<Longrightarrow> any_in as x = Inl TypeError"
  by (cases as; cases x) simp_all

lemma strip_empty_iff: "strip s = [] \<longleftrightarrow> (\<forall>c \<in> set s. is_space c)"
proof -
  have "strip s = [] \<longleftrightarrow> (\<forall>c \<in> set (dropWhile is_space s). is_space c)"
    by (simp add: strip_def)
  also have "\<dots> \<longleftrightarrow> dropWhile is_space s = []"
  proof
    assume a: "\<forall>c \<in> set (dropWhile is_space s). is_space c"
    show "dropWhile is_space s = []"
    proof (rule ccontr)
      assume ne: "dropWhile is_space s \<noteq> []"
      then have "\<not> is_space (hd (dropWhile is_space s))" by (rule hd_dropWhile)
      moreover from ne have "hd (dropWhile is_space s) \<in> set (dropWhile is_space s)" by simp
      ultimately show False using a by blast
    qed
  next
    assume e: "dropWhile is_space s = []"
    show "\<forall>c \<in> set (dropWhile is_space s). is_space c" unfolding e by simp
  qed
  also have "\<dots> \<longleftrightarrow> (\<forall>c \<in> set s. is_space c)" by simp
  finally show ?thesis .
qed

lemma source_check_total:
  "check_source_authenticity dp =
     (let source = py_get dp ''source'' (PStr []) in
      if is_container source
      then Inr \<lparr>sc_check = ''source_authenticity'', sc_source = source,
                sc_is_authentic =
                  (case source of
                     PStr s \<Rightarrow> \<exists>a \<in> set authoritative_sources. substring a s
                   | PList xs \<Rightarrow> \<exists>a \<in> set authoritative_sources. PStr a \<in> set xs
                   | _ \<Rightarrow> False),
                sc_score =
                  (if (case source of
                     PStr s \<Rightarrow> \<exists>a \<in> set authoritative_sources. substring a s
                   | PList xs \<Rightarrow> \<exists>a \<in> set authoritative_sources. PStr a \<in> set xs
                   | _ \<Rightarrow> False) then 99 else 0)\<rparr>
      else Inl TypeError)"
proof (cases "py_get dp ''source'' (PStr [])")
  case (PStr s)
  then show ?thesis by (simp add: check_source_authenticity_def any_in_str)
next
  case (PList xs)
  then show ?thesis by (simp add: check_source_authenticity_def any_in_list)
next
  case PNone
  then have "any_in authoritative_sources (py_get dp ''source'' (PStr [])) = Inl TypeError"
    by (intro any_in_not_container) (simp_all add: authoritative_sources_def)
  with PNone show ?thesis by (simp add: check_source_authenticity_def)
next
  case (PBool b)
  then have "any_in authoritative_sources (py_get dp ''source'' (PStr [])) = Inl TypeError"
    by (intro any_in_not_container) (simp_all add: authoritative_sources_def)
  with PBool show ?thesis by (simp add: check_source_authenticity_def)
next
  case (PInt i)
  then have "any_in authoritative_sources (py_get dp ''source'' (PStr [])) = Inl TypeError"
    by (intro any_in_not_container) (simp_all add: authoritative_sources_def)
  with PInt show ?thesis by (simp add: check_source_authenticity_def)
qed

lemma blank_penalty_total:
  "blank_penalty dp k q =
     (if is_str (py_get dp k (PStr []))
      then Inr (if absent_or_blank dp k then q - 50 else q)
      else Inl AttributeError)"
proof (cases "dp k")
  case None
  then show ?thesis by (simp add: blank_penalty_def py_get_def absent_or_blank_def strip_def)
next
  case (Some x)
  then show ?thesis
    by (cases x) (simp_all add: blank_penalty_def py_get_def absent_or_blank_def)
qed

lemma quality_check_total:
  "check_data_quality dp =
     (if is_str (py_get dp ''address'' (PStr [])) \<and> is_str (py_get dp ''city'' (PStr [])) \<and>
         is_str (py_get dp ''state'' (PStr []))
      then Inr \<lparr>qc_check = ''data_quality'',
                qc_score = of_int (max 0 (90 - 50 * int (length (filter (absent_or_blank dp)
                   [''address'', ''city'', ''state'']))))\<rparr>
      else Inl AttributeError)"
  by (simp add: check_data_quality_def blank_penalty_total)

lemma integrity_score_eq:
  "ic_score (check_data_integrity dp) =
     of_nat (length (filter (\<lambda>k. dp k \<noteq> None)
        [''address'', ''city'', ''state'', ''zip'', ''source'', ''timestamp''])) / 6 * 100"
  by (simp add: check_data_integrity_def)

lemma layer_1_total:
  "(\<exists>l1. layer_1_internal_verification dp = Inr l1) \<longleftrightarrow> well_typed dp"
  by (auto simp: layer_1_internal_verification_def source_check_total quality_check_total
      well_typed_def Let_def split: if_splits)

lemma layer_1_raises:
  "\<not> well_typed dp \<Longrightarrow>
     layer_1_internal_verification dp = Inl TypeError \<or>
     layer_1_internal_verification dp = Inl AttributeError"
  by (auto simp: layer_1_internal_verification_def source_check_total quality_check_total
      well_typed_def Let_def split: if_splits)

text \<open>
  Claim C5 as stated fails on a record without address: the field is not present but
  blank, so the claim's content sanity is 90, while the code deducts 50.
\<close>

theorem content_sanity_counts_absent_fields:
  "map_sum id (\<lambda>l. qc_score (data_quality (l1_checks l)))
     (layer_1_internal_verification record_without_address) = Inr 40 \<and>
   spec_content_sanity record_without_address = 90"
  by (simp add: layer_defs example_defs record_without_address_def spec_content_sanity_def present_but_blank_def Let_def)

text \<open>
  Claim C5, amended. Whenever layer 1 returns, its score is the mean of the three
  checks; for a source that is a string (or absent, read as the empty string) the
  authenticity score is 99 if an entry of the allow-list occurs in it and 0 otherwise;
  completeness is the number of the six keys present over 6, times 100; content
  sanity is 90 minus 50 for each of address, city and state that is absent or blank
  after stripping, not below 0.
\<close>

theorem layer_1_score_is_mean_of_checks:
  assumes "layer_1_internal_verification dp = Inr l1"
  shows "l1_score l1 =
           (sc_score (source_authenticity (l1_checks l1)) +
            ic_score (data_integrity (l1_checks l1)) +
            qc_score (data_quality (l1_checks l1))) / 3 \<and>
         (\<forall>s. py_get dp ''source'' (PStr []) = PStr s \<longrightarrow>
            sc_score (source_authenticity (l1_checks l1)) =
              (if \<exists>a \<in> set authoritative_sources. \<exists>p q. s = p @ a @ q then 99 else 0)) \<and>
         ic_score (data_integrity (l1_checks l1)) =
           of_nat (length (filter (\<lambda>k. dp k \<noteq> None)
             [''address'', ''city'', ''state'', ''zip'', ''source'', ''timestamp''])) / 6 * 100 \<and>
         qc_score (data_quality (l1_checks l1)) =
           of_int (max 0 (90 - 50 * int (length (filter (absent_or_blank dp)
             [''address'', ''city'', ''state'']))))"
proof -
  from layer_1_score_eq[OF assms] obtain sc qc where
    sc: "check_source_authenticity dp = Inr sc" and qc: "check_data_quality dp = Inr qc" and
    ch: "l1_checks l1 = \<lparr>source_authenticity = sc, data_integrity = check_data_integrity dp,
                           data_quality = qc\<rparr>" and
    eq: "l1_score l1 = (sc_score sc + ic_score (check_data_integrity dp) + qc_score qc) / 3"
    by blast
  have m: "l1_score l1 =
           (sc_score (source_authenticity (l1_checks l1)) +
            ic_score (data_integrity (l1_checks l1)) +
            qc_score (data_quality (l1_checks l1))) / 3"
    using eq ch by simp
  have s: "sc_score sc = (if \<exists>a \<in> set authoritative_sources. \<exists>p q. s = p @ a @ q then 99 else 0)"
    if "py_get dp ''source'' (PStr []) = PStr s" for s
  proof -
    from sc that
    have "sc_score sc = (if \<exists>a \<in> set authoritative_sources. substring a s then 99 else 0)"
      by (auto simp: source_check_total)
    then show ?thesis by (simp only: substring_iff)
  qed
  have q: "qc_score qc = of_int (max 0 (90 - 50 * int (length (filter (absent_or_blank dp)
             [''address'', ''city'', ''state'']))))"
    using qc by (auto simp: quality_check_total split: if_splits)
  from m s q integrity_score_eq[of dp] ch show ?thesis by simp
qed

theorem layer_1_score_is_mean_of_checks_witness:
  "(case layer_1_internal_verification record_without_address of
      Inl e \<Rightarrow> False
    | Inr l1 \<Rightarrow>
        l1_score l1 = (99 + 250 / 3 + 40) / 3 \<and>
        sc_score (source_authenticity (l1_checks l1)) = 99 \<and>
        ic_score (data_integrity (l1_checks l1)) = 250 / 3 \<and>
        qc_score (data_quality (l1_checks l1)) = 40)"
proof -
  have "\<exists>l1. layer_1_internal_verification record_without_address = Inr l1"
    by (simp add: layer_defs example_defs record_without_address_def Let_def)
  then obtain l1 where eq: "layer_1_internal_verification record_without_address = Inr l1"
    by (elim exE)
  have src: "py_get record_without_address ''source'' (PStr []) = PStr ''County Assessor''"
    by (simp add: py_get_def example_defs record_without_address_def)
  have au: "\<exists>a \<in> set authoritative_sources. \<exists>p q. ''County Assessor'' = p @ a @ q"
  proof -
    have "''County Assessor'' \<in> set authoritative_sources"
      by (simp add: authoritative_sources_def)
    moreover have "''County Assessor'' = [] @ ''County Assessor'' @ []" by simp
    ultimately show ?thesis by blast
  qed
  have ab: "filter (absent_or_blank record_without_address) [''address'', ''city'', ''state'']
     = [''address'']"
    by (simp add: absent_or_blank_def example_defs record_without_address_def strip_def is_space_def)
  have pr: "filter (\<lambda>k. record_without_address k \<noteq> None)
             [''address'', ''city'', ''state'', ''zip'', ''source'', ''timestamp'']
     = [''city'', ''state'', ''zip'', ''source'', ''timestamp'']"
    by (simp add: example_defs record_without_address_def)
  from layer_1_score_is_mean_of_checks[OF eq] src au
  have "l1_score l1 =
           (sc_score (source_authenticity (l1_checks l1)) +
            ic_score (data_integrity (l1_checks l1)) +
            qc_score (data_quality (l1_checks l1))) / 3"
    and "sc_score (source_authenticity (l1_checks l1)) = 99"
    and "ic_score (data_integrity (l1_checks l1)) = 250 / 3"
    and "qc_score (data_quality (l1_checks l1)) = 40"
    unfolding ab pr by simp_all
  with eq show ?thesis by simp
qed

section \<open>Records that make the validator raise\<close>

text \<open>
  Claim C6 as stated fails on a record whose address is a number: the call raises
  \<open>AttributeError\<close>.
\<close>

theorem validate_raises_on_number:
  "validate_data_point example_clock init_validator record_with_number = Inl AttributeError"
  by (simp add: validate_data_point_def layer_defs example_defs record_with_number_def Let_def)

text \<open>
  Claim C6, amended. On every record whose address, city and state are strings where
  present and whose source, where present, is a string or a list, the call returns a
  report, and the report is REJECTED exactly when layer 1 scores below 75.
\<close>

theorem validate_total_on_well_typed:
  assumes "well_typed dp"
  shows "\<exists>r v' l1. validate_data_point clock v dp = Inr (r, v') \<and>
           layer_1_internal_verification dp = Inr l1 \<and> layer_1 r = Some l1 \<and>
           (final_status r = Some REJECTED \<longleftrightarrow> l1_score l1 < 75)"
proof -
  from assms layer_1_total[of dp] obtain l where l: "layer_1_internal_verification dp = Inr l"
    by blast
  show ?thesis
  proof (cases "l1_score l < 75")
    case True
    from validate_rejects[OF l True, of clock v] l True show ?thesis
      by (simp add: Let_def)
  next
    case False
    then have ge: "75 \<le> l1_score l" by simp
    from validate_passes[OF l False, of clock v] l False classify_pass(1)[OF ge] show ?thesis
      by (simp add: Let_def)
  qed
qed

theorem validate_total_on_well_typed_witness:
  "well_typed (example_record(''address'' \<mapsto> PStr ''   '')) \<and>
   (case validate_data_point example_clock init_validator
           (example_record(''address'' \<mapsto> PStr ''   '')) of
      Inl e \<Rightarrow> False
    | Inr (r, v') \<Rightarrow>
        map_option l1_score (layer_1 r) = Some (239 / 3) \<and> final_status r = Some SILVER)"
proof -
  have wt: "well_typed (example_record(''address'' \<mapsto> PStr ''   ''))"
    by (simp add: well_typed_def py_get_def example_defs)
  have ev: "map_sum id l1_score
      (layer_1_internal_verification (example_record(''address'' \<mapsto> PStr ''   ''))) =
      Inr (239 / 3)"
    by (simp add: layer_defs example_defs Let_def)
  from validate_total_on_well_typed[OF wt, of example_clock init_validator]
  obtain r v' l1 where
    eq: "validate_data_point example_clock init_validator
           (example_record(''address'' \<mapsto> PStr ''   '')) = Inr (r, v')" and
    l: "layer_1_internal_verification (example_record(''address'' \<mapsto> PStr ''   '')) = Inr l1"
      "layer_1 r = Some l1" and
    st: "final_status r = Some REJECTED \<longleftrightarrow> l1_score l1 < 75"
    by (elim exE conjE)
  from ev l have s: "l1_score l1 = 239 / 3" by simp
  with st have nr: "final_status r \<noteq> Some REJECTED" by simp
  have "final_status r = Some SILVER"
    using eq by (simp add: validate_data_point_def layer_defs example_defs
        composite_score_def classify_def Let_def) auto
  with wt eq l s show ?thesis by simp
qed

text \<open>
  On every other record over the values of \<open>pyval\<close> the call raises. (Python values
  outside \<open>pyval\<close>, such as tuples or dictionaries, are not part of the model.)
\<close>

lemma validate_raises_on_ill_typed:
  "\<not> well_typed dp \<Longrightarrow>
     validate_data_point clock v dp = Inl TypeError \<or>
     validate_data_point clock v dp = Inl AttributeError"
  using layer_1_raises[of dp] validate_raises[of dp] by auto

end
